theory Spec2Isabelle
  imports Main "HOL-Library.Char_ord" "HOL-Library.List_Lexorder"
begin

section \<open>Data model of \<^verbatim>\<open>updater/main.py\<close>\<close>

text \<open>
  The updater keeps a manifest of the tracked wal2json extension and of one PostgreSQL
  image per requested major version. The three dataclasses of the source become records.
  \<^verbatim>\<open>PostgresqlRecord\<close> has the three fields of \<^verbatim>\<open>Wal2JsonRecord\<close> under the same
  names, plus \<^verbatim>\<open>major_version\<close> and \<^verbatim>\<open>tags\<close>; it is written as a record extension so
  that the selectors keep the names of the source. A \<^verbatim>\<open>datetime\<close> is a point in time,
  here a number of seconds; only its equality is ever used by the code.
\<close>

type_synonym datetime = int

record Wal2JsonRecord =
  last_updated :: datetime
  version :: string
  upstream_tag :: string

record PostgresqlRecord = Wal2JsonRecord +
  major_version :: string
  tags :: "string list"

record Manifest =
  wal2json :: Wal2JsonRecord
  postgresql :: "PostgresqlRecord list"

text \<open>
  One element of the \<^verbatim>\<open>results\<close> array of the registry's answer. The code reads the keys
  \<^verbatim>\<open>name\<close> and \<^verbatim>\<open>last_updated\<close>; both are JSON strings, and \<^verbatim>\<open>sorted\<close> compares the
  second one as a Python string (by code point, a proper prefix first), which is the
  lexicographic order on \<^typ>\<open>string\<close>.
\<close>

record RegistryTag =
  tag_name :: string
  tag_last_updated :: string

text \<open>
  The code declares no exception of its own. The two ways a run dies inside the
  computation of the candidate manifest are Python's built-in exceptions:
  \<^item> \<open>AttributeError\<close>: \<^verbatim>\<open>match.groupdict()\<close> on the \<^verbatim>\<open>None\<close> that \<^verbatim>\<open>re.match\<close> returns
    for a tag that does not match (line 43);
  \<^item> \<open>IndexError\<close>: \<^verbatim>\<open>version_tags_sorted[-1]\<close> on an empty list (line 96).
  Neither is caught anywhere, so each ends the process before the manifest is written.
\<close>

datatype error = AttributeError | IndexError

section \<open>Parsing an upstream tag\<close>

text \<open>
  \<^verbatim>\<open>POSTGRESQL_TAG_REGEX = "(?P<postgresql_version>[^-]+)-debian-(?P<debian_version>[^-]+)-.*"\<close>
  is applied with \<^verbatim>\<open>re.match\<close>: anchored at the start of the tag, not at its end.
  \<^verbatim>\<open>[^-]+\<close> is greedy and the character after it must be a dash, so the group is the whole
  run of non-dash characters at that position, which must not be empty; giving back
  characters never helps, because the next item of the pattern starts with a dash.
  The final \<^verbatim>\<open>.*\<close> may match nothing, so it never fails.
\<close>

definition not_dash :: "char \<Rightarrow> bool" where
  "not_dash c = (c \<noteq> CHR ''-'')"

fun strip_prefix :: "string \<Rightarrow> string \<Rightarrow> string option" where
  "strip_prefix [] s = Some s"
| "strip_prefix (p # ps) [] = None"
| "strip_prefix (p # ps) (c # cs) = (if p = c then strip_prefix ps cs else None)"

definition re_match_tag :: "string \<Rightarrow> (string \<times> string) option" where
  "re_match_tag tag =
     (let postgresql_version = takeWhile not_dash tag;
          rest1 = dropWhile not_dash tag
      in if postgresql_version = [] then None
         else case strip_prefix ''-debian-'' rest1 of
           None \<Rightarrow> None
         | Some rest2 \<Rightarrow>
             (let debian_version = takeWhile not_dash rest2;
                  rest3 = dropWhile not_dash rest2
              in if debian_version = [] then None
                 else case strip_prefix ''-'' rest3 of
                   None \<Rightarrow> None
                 | Some suffix \<Rightarrow> Some (postgresql_version, debian_version)))"

definition parse_tag :: "string \<Rightarrow> error + string \<times> string" where
  "parse_tag tag =
     (case re_match_tag tag of
        None \<Rightarrow> Inl AttributeError
      | Some groups \<Rightarrow> Inr groups)"


section \<open>Selecting the tag to track\<close>

text \<open>
  \<^verbatim>\<open>name.startswith(prefix)\<close> of Python.
\<close>

fun startswith :: "string \<Rightarrow> string \<Rightarrow> bool" where
  "startswith s [] = True"
| "startswith [] (p # ps) = False"
| "startswith (c # cs) (p # ps) = (c = p \<and> startswith cs ps)"

text \<open>
  Lines 94 to 96 of \<^verbatim>\<open>get_postgresql_records\<close>: keep the tags whose name starts with the
  major version and a dot, sort them by \<^verbatim>\<open>last_updated\<close> (\<^verbatim>\<open>sorted\<close> is stable, as
  \<^const>\<open>sort_key\<close> is) and take the last one. \<^verbatim>\<open>version_tags_sorted[-1]\<close> raises
  \<open>IndexError\<close> on the empty list.
\<close>

definition version_tag_latest :: "RegistryTag list \<Rightarrow> string \<Rightarrow> error + RegistryTag" where
  "version_tag_latest results major =
     (let version_tags = filter (\<lambda>t. startswith (tag_name t) (major @ ''.'')) results;
          version_tags_sorted = sort_key tag_last_updated version_tags
      in if version_tags_sorted = [] then Inl IndexError
         else Inr (last version_tags_sorted))"

section \<open>Building the records\<close>

text \<open>
  \<^verbatim>\<open>PostgresqlRecord.from_version\<close>: the four aliases are appended in this order, and
  \<^verbatim>\<open>:latest\<close> after them when the flag is set.
\<close>

definition from_version ::
  "datetime \<Rightarrow> string \<Rightarrow> string \<Rightarrow> string \<Rightarrow> bool \<Rightarrow> error + PostgresqlRecord" where
  "from_version update_time image_name major upstream latest =
     (case parse_tag upstream of
        Inl e \<Rightarrow> Inl e
      | Inr (postgresql_version, debian_version) \<Rightarrow>
          Inr \<lparr> last_updated = update_time,
                version = postgresql_version,
                upstream_tag = upstream,
                major_version = major,
                tags = [image_name @ '':'' @ upstream,
                        image_name @ '':'' @ major @ ''-debian-'' @ debian_version,
                        image_name @ '':'' @ postgresql_version,
                        image_name @ '':'' @ major]
                       @ (if latest then [image_name @ '':latest''] else []) \<rparr>)"

definition get_wal2json_record :: "datetime \<Rightarrow> Wal2JsonRecord" where
  "get_wal2json_record update_time =
     \<lparr> last_updated = update_time, version = ''2.5'', upstream_tag = ''wal2json_2_5'' \<rparr>"

text \<open>
  The loop of \<^verbatim>\<open>get_postgresql_records\<close> over \<^verbatim>\<open>enumerate(postgresql_major_versions)\<close>:
  \<open>n\<close> is the length of the whole list and \<open>i\<close> the index of the element at hand. The
  first exception leaves the loop. The answer of the registry (the \<^verbatim>\<open>results\<close> array
  of the HTTP response) is a parameter.
\<close>

fun records_loop ::
  "datetime \<Rightarrow> string \<Rightarrow> RegistryTag list \<Rightarrow> nat \<Rightarrow> nat \<Rightarrow> string list
     \<Rightarrow> error + PostgresqlRecord list" where
  "records_loop update_time image_name results n i [] = Inr []"
| "records_loop update_time image_name results n i (major # majors) =
     (case version_tag_latest results major of
        Inl e \<Rightarrow> Inl e
      | Inr t \<Rightarrow>
          (case from_version update_time image_name major (tag_name t) (i + 1 = n) of
             Inl e \<Rightarrow> Inl e
           | Inr record \<Rightarrow>
               (case records_loop update_time image_name results n (i + 1) majors of
                  Inl e \<Rightarrow> Inl e
                | Inr records \<Rightarrow> Inr (record # records))))"

definition get_postgresql_records ::
  "datetime \<Rightarrow> string \<Rightarrow> string list \<Rightarrow> RegistryTag list \<Rightarrow> error + PostgresqlRecord list" where
  "get_postgresql_records update_time image_name postgresql_major_versions results =
     records_loop update_time image_name results
       (length postgresql_major_versions) 0 postgresql_major_versions"

definition generate_manifest ::
  "datetime \<Rightarrow> string \<Rightarrow> string list \<Rightarrow> RegistryTag list \<Rightarrow> error + Manifest" where
  "generate_manifest update_time image_name postgresql_major_versions results =
     (case get_postgresql_records update_time image_name postgresql_major_versions results of
        Inl e \<Rightarrow> Inl e
      | Inr postgresql_records \<Rightarrow>
          Inr \<lparr> wal2json = get_wal2json_record update_time,
                postgresql = postgresql_records \<rparr>)"

section \<open>Merging with the previous manifest\<close>

text \<open>
  \<^verbatim>\<open>{r.major_version: r for r in records}\<close>: a later record replaces an earlier one
  of the same major version.
\<close>

definition records_by_major :: "PostgresqlRecord list \<Rightarrow> (string \<rightharpoonup> PostgresqlRecord)" where
  "records_by_major records = foldl (\<lambda>m r. m(major_version r \<mapsto> r)) Map.empty records"

text \<open>
  One pass of the loop of lines 153 to 168, in the order of its branches. A record object
  is always truthy, so \<^verbatim>\<open>not old\<close> is \<^verbatim>\<open>old is None\<close>. The result is the record appended,
  or \<open>None\<close> for \<^verbatim>\<open>continue\<close>.
\<close>

fun reconcile ::
  "PostgresqlRecord option \<Rightarrow> PostgresqlRecord option \<Rightarrow> PostgresqlRecord option" where
  "reconcile None (Some new) = Some new"
| "reconcile (Some old) (Some new) =
     (if upstream_tag new \<noteq> upstream_tag old then Some new else Some old)"
| "reconcile (Some old) None = Some old"
| "reconcile None None = None"

fun reconcile_loop ::
  "(string \<rightharpoonup> PostgresqlRecord) \<Rightarrow> (string \<rightharpoonup> PostgresqlRecord) \<Rightarrow> string list
     \<Rightarrow> PostgresqlRecord list" where
  "reconcile_loop old_postgresql_records new_postgresql_records [] = []"
| "reconcile_loop old_postgresql_records new_postgresql_records (major # majors) =
     (case reconcile (old_postgresql_records major) (new_postgresql_records major) of
        Some record \<Rightarrow>
          record # reconcile_loop old_postgresql_records new_postgresql_records majors
      | None \<Rightarrow> reconcile_loop old_postgresql_records new_postgresql_records majors)"

text \<open>
  Lines 143 to 172 of \<^verbatim>\<open>update_manifest\<close>: what is done with the previous manifest, the
  freshly generated one and the sorted major versions. The previous manifest is updated in
  place and returned by the source; here the updated value is returned.
\<close>

definition merge_manifest :: "Manifest option \<Rightarrow> Manifest \<Rightarrow> string list \<Rightarrow> Manifest" where
  "merge_manifest manifest new_manifest postgresql_major_versions =
     (case manifest of
        None \<Rightarrow> new_manifest
      | Some m \<Rightarrow>
          (let m1 = (if upstream_tag (wal2json m) \<noteq> upstream_tag (wal2json new_manifest)
                     then m \<lparr> wal2json := wal2json new_manifest \<rparr> else m);
               old_postgresql_records = records_by_major (postgresql m1);
               new_postgresql_records = records_by_major (postgresql new_manifest)
           in m1 \<lparr> postgresql :=
                reconcile_loop old_postgresql_records new_postgresql_records
                  postgresql_major_versions \<rparr>))"

text \<open>
  \<^verbatim>\<open>update_manifest\<close> as a whole: sort the requested major versions (as Python strings),
  generate the candidate manifest from the registry's answer, merge.
\<close>

definition update_manifest ::
  "Manifest option \<Rightarrow> datetime \<Rightarrow> string \<Rightarrow> string list \<Rightarrow> RegistryTag list
     \<Rightarrow> error + Manifest" where
  "update_manifest manifest update_time image_name postgresql_major_versions results =
     (let sorted_major_versions = sort postgresql_major_versions
      in case generate_manifest update_time image_name sorted_major_versions results of
           Inl e \<Rightarrow> Inl e
         | Inr new_manifest \<Rightarrow>
             Inr (merge_manifest manifest new_manifest sorted_major_versions))"

text \<open>
  The entry a list of records holds for a major version, as the specification speaks of
  it (entries indexed by \<^verbatim>\<open>major_version\<close>): the record with that major version, the
  last one should there be several. It is defined on the list alone, apart from the
  dictionaries of the code.
\<close>

definition entry_for :: "PostgresqlRecord list \<Rightarrow> string \<Rightarrow> PostgresqlRecord option" where
  "entry_for records mv =
     (let matching = filter (\<lambda>r. major_version r = mv) records
      in if matching = [] then None else Some (last matching))"

section \<open>Timestamps\<close>

text \<open>
  The instant that a timestamp of the registry's form denotes,
  \<^verbatim>\<open>YYYY-MM-DDThh:mm:ss\<close>, an optional fraction of a second and \<^verbatim>\<open>Z\<close>: year, month,
  day, hour, minute, second and microseconds. Two such lists compare as the instants do.
  The value of a digit is its place in \<open>0123456789\<close>.
  The code never computes it; it is what the specification means by a greater timestamp.
\<close>

definition digit_value :: "char \<Rightarrow> nat" where
  "digit_value c = length (takeWhile (\<lambda>d. d \<noteq> c) ''0123456789'')"

definition digits_value :: "string \<Rightarrow> nat" where
  "digits_value ds = foldl (\<lambda>n c. 10 * n + digit_value c) 0 ds"

definition is_digit :: "char \<Rightarrow> bool" where
  "is_digit c \<longleftrightarrow> c \<in> set ''0123456789''"

definition iso8601_instant :: "string \<Rightarrow> nat list" where
  "iso8601_instant s =
     [digits_value (take 4 s),
      digits_value (take 2 (drop 5 s)),
      digits_value (take 2 (drop 8 s)),
      digits_value (take 2 (drop 11 s)),
      digits_value (take 2 (drop 14 s)),
      digits_value (take 2 (drop 17 s)),
      (if take 1 (drop 19 s) = ''.''
       then digits_value (take 6 (takeWhile is_digit (drop 20 s) @ ''000000''))
       else 0)]"

section \<open>Example data\<close>

text \<open>
  A registry answer, records and manifests for the image \<^verbatim>\<open>acme/img\<close>, used to run the
  definitions on concrete inputs.
\<close>

definition registry_june :: "RegistryTag list" where
  "registry_june =
     [\<lparr> tag_name = ''15.3-debian-12-r4'', tag_last_updated = ''2023-06-01T10:00:00.000000Z'' \<rparr>,
      \<lparr> tag_name = ''14.8-debian-11-r1'', tag_last_updated = ''2023-05-02T10:00:00.000000Z'' \<rparr>]"

definition record_13 :: PostgresqlRecord where
  "record_13 =
     \<lparr> last_updated = 50, version = ''13.11'', upstream_tag = ''13.11-debian-11-r2'',
       major_version = ''13'',
       tags = [''acme/img:13.11-debian-11-r2'', ''acme/img:13-debian-11'',
               ''acme/img:13.11'', ''acme/img:13''] \<rparr>"

definition record_14 :: "datetime \<Rightarrow> PostgresqlRecord" where
  "record_14 t =
     \<lparr> last_updated = t, version = ''14.8'', upstream_tag = ''14.8-debian-11-r1'',
       major_version = ''14'',
       tags = [''acme/img:14.8-debian-11-r1'', ''acme/img:14-debian-11'',
               ''acme/img:14.8'', ''acme/img:14''] \<rparr>"

definition record_15_2 :: "datetime \<Rightarrow> PostgresqlRecord" where
  "record_15_2 t =
     \<lparr> last_updated = t, version = ''15.2'', upstream_tag = ''15.2-debian-12-r9'',
       major_version = ''15'',
       tags = [''acme/img:15.2-debian-12-r9'', ''acme/img:15-debian-12'',
               ''acme/img:15.2'', ''acme/img:15'', ''acme/img:latest''] \<rparr>"

definition record_15_3 :: "datetime \<Rightarrow> PostgresqlRecord" where
  "record_15_3 t =
     \<lparr> last_updated = t, version = ''15.3'', upstream_tag = ''15.3-debian-12-r4'',
       major_version = ''15'',
       tags = [''acme/img:15.3-debian-12-r4'', ''acme/img:15-debian-12'',
               ''acme/img:15.3'', ''acme/img:15'', ''acme/img:latest''] \<rparr>"

definition manifest_may :: Manifest where
  "manifest_may =
     \<lparr> wal2json = get_wal2json_record 100,
       postgresql = [record_13, record_14 100, record_15_2 100] \<rparr>"

definition candidate_june :: "datetime \<Rightarrow> Manifest" where
  "candidate_june t =
     \<lparr> wal2json = get_wal2json_record t,
       postgresql = [record_14 t, record_15_3 t] \<rparr>"

section \<open>Properties of the tag parser\<close>









section \<open>Dictionaries and the reconciliation loop\<close>

lemma records_by_major_Nil: "records_by_major [] = Map.empty"
  by (simp add: records_by_major_def)

lemma records_by_major_snoc:
  "records_by_major (rs @ [r]) = (records_by_major rs)(major_version r \<mapsto> r)"
  by (simp add: records_by_major_def)

lemma records_by_major_Some:
  "records_by_major rs mv = Some r \<Longrightarrow> r \<in> set rs \<and> major_version r = mv"
proof (induction rs rule: rev_induct)
  case Nil
  then show ?case by (simp add: records_by_major_Nil)
next
  case (snoc x xs)
  then show ?case
    by (cases "major_version x = mv") (auto simp: records_by_major_snoc)
qed

lemma records_by_major_None:
  "records_by_major rs mv = None \<longleftrightarrow> mv \<notin> major_version ` set rs"
proof (induction rs rule: rev_induct)
  case Nil
  then show ?case by (simp add: records_by_major_Nil)
next
  case (snoc x xs)
  then show ?case
    by (cases "major_version x = mv") (auto simp: records_by_major_snoc)
qed

lemma reconcile_None: "reconcile a b = None \<longleftrightarrow> a = None \<and> b = None"
  by (cases "(a, b)" rule: reconcile.cases) auto

lemma reconcile_Some:
  "reconcile a b = Some r \<Longrightarrow> a = Some r \<or> b = Some r"
  by (cases "(a, b)" rule: reconcile.cases) (auto split: if_splits)

lemma reconcile_loop_map_filter:
  "reconcile_loop old new majors = List.map_filter (\<lambda>mv. reconcile (old mv) (new mv)) majors"
  by (induction majors) (auto simp: map_filter_simps split: option.splits)

lemma reconcile_loop_mem:
  "r \<in> set (reconcile_loop old new majors) \<Longrightarrow>
   \<exists>mv \<in> set majors. reconcile (old mv) (new mv) = Some r"
  by (induction majors) (auto split: option.splits)

lemma reconcile_loop_majors:
  assumes "\<And>mv r. old mv = Some r \<Longrightarrow> major_version r = mv"
    and "\<And>mv r. new mv = Some r \<Longrightarrow> major_version r = mv"
  shows "map major_version (reconcile_loop old new majors) =
         filter (\<lambda>mv. old mv \<noteq> None \<or> new mv \<noteq> None) majors"
proof (induction majors)
  case Nil
  show ?case by simp
next
  case (Cons mv mvs)
  show ?case
  proof (cases "reconcile (old mv) (new mv)")
    case None
    then show ?thesis using Cons by (simp add: reconcile_None)
  next
    case (Some r)
    then have "major_version r = mv"
      using reconcile_Some assms by blast
    moreover from Some have "old mv \<noteq> None \<or> new mv \<noteq> None"
      using reconcile_None [of "old mv" "new mv"] by auto
    ultimately show ?thesis using Some Cons by auto
  qed
qed

lemma postgresql_merge_manifest:
  "postgresql (merge_manifest (Some previous) candidate majors) =
   reconcile_loop (records_by_major (postgresql previous))
     (records_by_major (postgresql candidate)) majors"
  by (simp add: merge_manifest_def Let_def)

lemma wal2json_merge_manifest:
  "wal2json (merge_manifest (Some previous) candidate majors) =
   (if upstream_tag (wal2json previous) \<noteq> upstream_tag (wal2json candidate)
    then wal2json candidate else wal2json previous)"
  by (simp add: merge_manifest_def Let_def)

text \<open>
  Claim C1. A major version that has an entry neither in the previous manifest's
  \<^verbatim>\<open>postgresql\<close> list nor in the candidate's has none in the merged list, whatever
  list of major versions is requested: the loop takes its \<^verbatim>\<open>continue\<close> branch. The
  merge itself has no failing step (it returns a manifest, not an error) and builds no
  record of its own. Inside \<^verbatim>\<open>update_manifest\<close> the candidate always holds one record
  per requested major version (lemma \<open>generate_manifest_majors\<close>), so there the branch
  is never taken.
\<close>

theorem drop_on_absence:
  assumes "mv \<notin> major_version ` set (postgresql previous)"
    and "mv \<notin> major_version ` set (postgresql candidate)"
  shows "mv \<notin> major_version ` set (postgresql (merge_manifest (Some previous) candidate majors))"
proof
  assume "mv \<in> major_version ` set (postgresql (merge_manifest (Some previous) candidate majors))"
  then obtain r where r: "r \<in> set (reconcile_loop (records_by_major (postgresql previous))
     (records_by_major (postgresql candidate)) majors)" and mv: "major_version r = mv"
    unfolding postgresql_merge_manifest by auto
  from reconcile_loop_mem [OF r] obtain k where
    "reconcile (records_by_major (postgresql previous) k) (records_by_major (postgresql candidate) k) = Some r"
    by blast
  then have "records_by_major (postgresql previous) k = Some r \<or> records_by_major (postgresql candidate) k = Some r"
    by (rule reconcile_Some)
  then have "r \<in> set (postgresql previous) \<or> r \<in> set (postgresql candidate)"
    using records_by_major_Some by blast
  with assms mv show False by blast
qed

text \<open>
  Claim C5. Without a previous manifest the merge returns the candidate manifest as it
  is, so \<^verbatim>\<open>update_manifest\<close> returns what \<^verbatim>\<open>generate_manifest\<close> built for the sorted
  major versions (or fails as it does).
\<close>

theorem first_run:
  "merge_manifest None candidate majors = candidate \<and>
   update_manifest None update_time image_name majors results =
     generate_manifest update_time image_name (sort majors) results"
  by (simp add: merge_manifest_def update_manifest_def Let_def split: sum.splits)

section \<open>Change detection\<close>

lemma reconcile_cases:
  assumes "reconcile (Some old) b = Some r"
  shows "(upstream_tag r \<noteq> upstream_tag old \<and> b = Some r) \<or> (r = old)"
  using assms by (cases b) (auto split: if_splits)

text \<open>
  Claim C2, as amended. Merging a previous manifest with a candidate: the extension
  record is the candidate's when the two \<^verbatim>\<open>upstream_tag\<close>s differ and the previous one,
  untouched, when they are equal. For the extension record, and for every record of the
  merged \<^verbatim>\<open>postgresql\<close> list whose major version has a record in the previous manifest:
  \<^verbatim>\<open>last_updated\<close> differs from the previous value only if \<^verbatim>\<open>upstream_tag\<close> differs;
  when \<^verbatim>\<open>upstream_tag\<close> differs the record is the candidate's one, and when it is equal
  the record is the previous one; hence the two differ together whenever the
  candidate's \<^verbatim>\<open>last_updated\<close> for that key is not the previous one.
\<close>

theorem last_updated_only_with_tag:
  fixes previous candidate :: Manifest and majors :: "string list"
  defines "merged \<equiv> merge_manifest (Some previous) candidate majors"
  shows "(upstream_tag (wal2json previous) \<noteq> upstream_tag (wal2json candidate)
            \<longrightarrow> wal2json merged = wal2json candidate) \<and>
         (upstream_tag (wal2json previous) = upstream_tag (wal2json candidate)
            \<longrightarrow> wal2json merged = wal2json previous) \<and>
         (last_updated (wal2json merged) \<noteq> last_updated (wal2json previous)
            \<longrightarrow> upstream_tag (wal2json merged) \<noteq> upstream_tag (wal2json previous)) \<and>
         (last_updated (wal2json candidate) \<noteq> last_updated (wal2json previous)
            \<longrightarrow> (last_updated (wal2json merged) \<noteq> last_updated (wal2json previous)
                  \<longleftrightarrow> upstream_tag (wal2json merged) \<noteq> upstream_tag (wal2json previous))) \<and>
         (\<forall>r \<in> set (postgresql merged). \<forall>old.
            records_by_major (postgresql previous) (major_version r) = Some old \<longrightarrow>
              (last_updated r \<noteq> last_updated old \<longrightarrow> upstream_tag r \<noteq> upstream_tag old) \<and>
              (upstream_tag r \<noteq> upstream_tag old \<longrightarrow>
                 records_by_major (postgresql candidate) (major_version r) = Some r) \<and>
              (upstream_tag r = upstream_tag old \<longrightarrow> r = old) \<and>
              ((\<forall>new. records_by_major (postgresql candidate) (major_version r) = Some new
                   \<longrightarrow> last_updated new \<noteq> last_updated old) \<longrightarrow>
                 (last_updated r \<noteq> last_updated old \<longleftrightarrow> upstream_tag r \<noteq> upstream_tag old)))"
proof -
  have w: "wal2json merged =
      (if upstream_tag (wal2json previous) \<noteq> upstream_tag (wal2json candidate)
       then wal2json candidate else wal2json previous)"
    unfolding merged_def by (rule wal2json_merge_manifest)
  have e: "(last_updated r \<noteq> last_updated old \<longrightarrow> upstream_tag r \<noteq> upstream_tag old) \<and>
           (upstream_tag r \<noteq> upstream_tag old \<longrightarrow>
              records_by_major (postgresql candidate) (major_version r) = Some r) \<and>
           (upstream_tag r = upstream_tag old \<longrightarrow> r = old) \<and>
           ((\<forall>new. records_by_major (postgresql candidate) (major_version r) = Some new
                \<longrightarrow> last_updated new \<noteq> last_updated old) \<longrightarrow>
              (last_updated r \<noteq> last_updated old \<longleftrightarrow> upstream_tag r \<noteq> upstream_tag old))"
    if r: "r \<in> set (postgresql merged)"
      and old: "records_by_major (postgresql previous) (major_version r) = Some old"
    for r old
  proof -
    from r obtain k where k: "reconcile (records_by_major (postgresql previous) k)
        (records_by_major (postgresql candidate) k) = Some r"
      unfolding merged_def postgresql_merge_manifest using reconcile_loop_mem by blast
    then have "major_version r = k"
      using reconcile_Some records_by_major_Some by blast
    with k old have "reconcile (Some old)
        (records_by_major (postgresql candidate) (major_version r)) = Some r"
      by simp
    from reconcile_cases [OF this] show ?thesis by auto
  qed
  have p1: "upstream_tag (wal2json previous) \<noteq> upstream_tag (wal2json candidate)
            \<longrightarrow> wal2json merged = wal2json candidate"
    and p2: "upstream_tag (wal2json previous) = upstream_tag (wal2json candidate)
            \<longrightarrow> wal2json merged = wal2json previous"
    by (simp_all add: w)
  have p3: "last_updated (wal2json merged) \<noteq> last_updated (wal2json previous)
            \<longrightarrow> upstream_tag (wal2json merged) \<noteq> upstream_tag (wal2json previous)"
    by (cases "upstream_tag (wal2json previous) = upstream_tag (wal2json candidate)")
       (simp_all add: w)
  have p4: "last_updated (wal2json candidate) \<noteq> last_updated (wal2json previous)
            \<longrightarrow> (last_updated (wal2json merged) \<noteq> last_updated (wal2json previous)
                  \<longleftrightarrow> upstream_tag (wal2json merged) \<noteq> upstream_tag (wal2json previous))"
    by (cases "upstream_tag (wal2json previous) = upstream_tag (wal2json candidate)")
       (simp_all add: w)
  have p5: "\<forall>r \<in> set (postgresql merged). \<forall>old.
            records_by_major (postgresql previous) (major_version r) = Some old \<longrightarrow>
              (last_updated r \<noteq> last_updated old \<longrightarrow> upstream_tag r \<noteq> upstream_tag old) \<and>
              (upstream_tag r \<noteq> upstream_tag old \<longrightarrow>
                 records_by_major (postgresql candidate) (major_version r) = Some r) \<and>
              (upstream_tag r = upstream_tag old \<longrightarrow> r = old) \<and>
              ((\<forall>new. records_by_major (postgresql candidate) (major_version r) = Some new
                   \<longrightarrow> last_updated new \<noteq> last_updated old) \<longrightarrow>
                 (last_updated r \<noteq> last_updated old \<longleftrightarrow> upstream_tag r \<noteq> upstream_tag old))"
    by (intro ballI allI impI) (rule e)
  show ?thesis
    by (intro conjI) (rule p1 p2 p3 p4 p5)+
qed

lemma map_filter_eqI:
  "(\<And>x. x \<in> set xs \<Longrightarrow> f x = g x) \<Longrightarrow> List.map_filter f xs = List.map_filter g xs"
  by (induction xs) (auto simp: map_filter_simps split: option.splits)

text \<open>
  Claim C4. If the candidate selects the same upstream tags as the manifest \<open>M\<close> holds, for
  the extension and for every requested major version, then merging \<open>M\<close> with the candidate
  keeps the extension record of \<open>M\<close>, and the merged \<^verbatim>\<open>postgresql\<close> list consists of the
  records \<open>M\<close> holds for the requested major versions: every record of the result is the
  record of \<open>M\<close> for its major version, with the \<^verbatim>\<open>last_updated\<close> it has in \<open>M\<close>.
\<close>

theorem merge_idempotent:
  fixes M candidate :: Manifest and majors :: "string list"
  defines "merged \<equiv> merge_manifest (Some M) candidate majors"
  assumes ext: "upstream_tag (wal2json candidate) = upstream_tag (wal2json M)"
    and eng: "\<forall>mv \<in> set majors.
       map_option upstream_tag (records_by_major (postgresql candidate) mv) =
       map_option upstream_tag (records_by_major (postgresql M) mv)"
  shows "wal2json merged = wal2json M \<and>
         postgresql merged = List.map_filter (records_by_major (postgresql M)) majors \<and>
         (\<forall>r \<in> set (postgresql merged).
            records_by_major (postgresql M) (major_version r) = Some r)"
proof -
  have w: "wal2json merged = wal2json M"
    unfolding merged_def wal2json_merge_manifest using ext by simp
  have "reconcile (records_by_major (postgresql M) mv) (records_by_major (postgresql candidate) mv)
        = records_by_major (postgresql M) mv" if "mv \<in> set majors" for mv
    using eng that
    by (cases "(records_by_major (postgresql M) mv, records_by_major (postgresql candidate) mv)"
        rule: reconcile.cases) (auto dest!: bspec [where x = mv])
  then have "List.map_filter (\<lambda>mv. reconcile (records_by_major (postgresql M) mv)
                 (records_by_major (postgresql candidate) mv)) majors
           = List.map_filter (records_by_major (postgresql M)) majors"
    by (intro map_filter_eqI) simp
  then have p: "postgresql merged = List.map_filter (records_by_major (postgresql M)) majors"
    unfolding merged_def postgresql_merge_manifest reconcile_loop_map_filter .
  have "\<forall>r \<in> set (postgresql merged). records_by_major (postgresql M) (major_version r) = Some r"
    unfolding p using records_by_major_Some by (fastforce simp: map_filter_def)
  with w p show ?thesis by blast
qed

lemma generate_manifest_wal2json:
  "generate_manifest update_time image_name majors results = Inr N \<Longrightarrow>
   wal2json N = get_wal2json_record update_time"
  by (auto simp: generate_manifest_def split: sum.splits)

text \<open>
  Claim C10. The candidate extension record has version \<open>2.5\<close> and upstream tag
  \<open>wal2json_2_5\<close> whatever the registry answers and whichever major versions are
  requested. So when the previous manifest's extension record has the upstream tag
  \<open>wal2json_2_5\<close>, every successful \<^verbatim>\<open>update_manifest\<close> returns a manifest with that
  previous extension record, unchanged.
\<close>

theorem wal2json_record_constant:
  "version (get_wal2json_record update_time) = ''2.5'' \<and>
   upstream_tag (get_wal2json_record update_time) = ''wal2json_2_5'' \<and>
   (generate_manifest update_time image_name majors results = Inr candidate \<longrightarrow>
      version (wal2json candidate) = ''2.5'' \<and>
      upstream_tag (wal2json candidate) = ''wal2json_2_5'') \<and>
   (upstream_tag (wal2json previous) = ''wal2json_2_5'' \<longrightarrow>
    update_manifest (Some previous) update_time image_name majors results = Inr merged \<longrightarrow>
      wal2json merged = wal2json previous)"
proof -
  have a: "version (get_wal2json_record update_time) = ''2.5''"
    and b: "upstream_tag (get_wal2json_record update_time) = ''wal2json_2_5''"
    by (simp_all add: get_wal2json_record_def)
  have c: "version (wal2json candidate) = ''2.5'' \<and>
      upstream_tag (wal2json candidate) = ''wal2json_2_5''"
    if "generate_manifest update_time image_name majors results = Inr candidate"
    using generate_manifest_wal2json [OF that] a b by simp
  have d: "wal2json merged = wal2json previous"
    if p: "upstream_tag (wal2json previous) = ''wal2json_2_5''"
      and u: "update_manifest (Some previous) update_time image_name majors results = Inr merged"
  proof -
    from u obtain N where
      N: "generate_manifest update_time image_name (sort majors) results = Inr N"
      and m: "merged = merge_manifest (Some previous) N (sort majors)"
      by (auto simp: update_manifest_def Let_def split: sum.splits)
    from generate_manifest_wal2json [OF N] b
    have "upstream_tag (wal2json N) = ''wal2json_2_5''" by simp
    with p show ?thesis unfolding m wal2json_merge_manifest by simp
  qed
  from a b c d show ?thesis by blast
qed

section \<open>Selection and record building\<close>

lemma sorted_map_last:
  "sorted (map f ys) \<Longrightarrow> y \<in> set ys \<Longrightarrow> f y \<le> f (last ys)"
  by (induction ys) auto

lemma version_tag_latest_Inr:
  assumes "version_tag_latest results major = Inr t"
  shows "t \<in> set results" and "startswith (tag_name t) (major @ ''.'')"
    and "u \<in> set results \<Longrightarrow> startswith (tag_name u) (major @ ''.'')
         \<Longrightarrow> tag_last_updated u \<le> tag_last_updated t"
proof -
  let ?vs = "filter (\<lambda>t. startswith (tag_name t) (major @ ''.'')) results"
  let ?ss = "sort_key tag_last_updated ?vs"
  from assms have ne: "?ss \<noteq> []" and t: "t = last ?ss"
    by (auto simp: version_tag_latest_def Let_def split: if_splits)
  from ne have "last ?ss \<in> set ?ss" by (rule last_in_set)
  then have "t \<in> set ?vs" unfolding t by simp
  then show "t \<in> set results" and "startswith (tag_name t) (major @ ''.'')" by simp_all
  assume "u \<in> set results" "startswith (tag_name u) (major @ ''.'')"
  then have "u \<in> set ?ss" by simp
  moreover have "sorted (map tag_last_updated ?ss)" by (rule sorted_sort_key)
  ultimately show "tag_last_updated u \<le> tag_last_updated t"
    unfolding t by (rule sorted_map_last [rotated])
qed

lemma sort_key_Nil_iff: "sort_key f xs = [] \<longleftrightarrow> xs = []"
  using length_sort [of f xs] by (metis length_0_conv)

lemma version_tag_latest_IndexError:
  "version_tag_latest results major = Inl IndexError \<longleftrightarrow>
   (\<forall>t \<in> set results. \<not> startswith (tag_name t) (major @ ''.''))"
  by (auto simp: version_tag_latest_def Let_def sort_key_Nil_iff filter_empty_conv)

lemma version_tag_latest_Inl: "version_tag_latest results major = Inl e \<Longrightarrow> e = IndexError"
  by (auto simp: version_tag_latest_def Let_def split: if_splits)

text \<open>
  Claim C7, as amended. The tag selected for a major version is one of the registry's tags
  whose name starts with the major version and a dot, and no such tag has a greater
  \<^verbatim>\<open>last_updated\<close>, compared as the string the registry reports (by code point); one
  is selected as soon as such a tag exists. The version in the tag's name plays no part:
  of two such tags with different \<^verbatim>\<open>last_updated\<close> strings, the one with the greater
  string is selected.
\<close>

theorem version_tag_latest_greatest:
  "(version_tag_latest results major = Inr t \<longrightarrow>
      t \<in> set results \<and> startswith (tag_name t) (major @ ''.'') \<and>
      (\<forall>u \<in> set results. startswith (tag_name u) (major @ ''.'')
          \<longrightarrow> tag_last_updated u \<le> tag_last_updated t)) \<and>
   ((\<exists>u \<in> set results. startswith (tag_name u) (major @ ''.''))
      \<longrightarrow> (\<exists>t. version_tag_latest results major = Inr t)) \<and>
   (startswith (tag_name a) (major @ ''.'') \<longrightarrow> startswith (tag_name b) (major @ ''.'')
      \<longrightarrow> tag_last_updated a \<noteq> tag_last_updated b
      \<longrightarrow> version_tag_latest [a, b] major =
            Inr (if tag_last_updated a < tag_last_updated b then b else a))"
proof (intro conjI impI)
  assume "version_tag_latest results major = Inr t"
  from version_tag_latest_Inr [OF this]
  show "t \<in> set results" and "startswith (tag_name t) (major @ ''.'')"
    and "\<forall>u \<in> set results. startswith (tag_name u) (major @ ''.'')
          \<longrightarrow> tag_last_updated u \<le> tag_last_updated t"
    by blast+
next
  assume ex: "\<exists>u \<in> set results. startswith (tag_name u) (major @ ''.'')"
  show "\<exists>t. version_tag_latest results major = Inr t"
  proof (cases "version_tag_latest results major")
    case (Inl e)
    then have "version_tag_latest results major = Inl IndexError"
      using version_tag_latest_Inl by blast
    with ex show ?thesis unfolding version_tag_latest_IndexError by blast
  next
    case (Inr t)
    then show ?thesis by blast
  qed
next
  assume "startswith (tag_name a) (major @ ''.'')" "startswith (tag_name b) (major @ ''.'')"
    "tag_last_updated a \<noteq> tag_last_updated b"
  then show "version_tag_latest [a, b] major =
            Inr (if tag_last_updated a < tag_last_updated b then b else a)"
    by (auto simp: version_tag_latest_def Let_def)
qed

lemma records_loop_fails:
  "major \<in> set majors \<Longrightarrow> version_tag_latest results major = Inl e0 \<Longrightarrow>
   \<exists>e. records_loop update_time image_name results n i majors = Inl e"
proof (induction majors arbitrary: i)
  case Nil
  then show ?case by simp
next
  case (Cons a majors)
  show ?case
  proof (cases "version_tag_latest results a")
    case (Inl e)
    then show ?thesis by simp
  next
    case sel: (Inr t)
    then have "major \<in> set majors"
      using Cons.prems by auto
    from Cons.IH [OF this Cons.prems(2), of "i + 1"] obtain e where
      "records_loop update_time image_name results n (i + 1) majors = Inl e" ..
    with sel show ?thesis
      by (simp split: sum.splits)
  qed
qed

text \<open>
  Claim C8. When no tag's name starts with the major version and a dot, the selection
  fails: \<^verbatim>\<open>version_tags_sorted[-1]\<close> raises \<open>IndexError\<close> on the empty list (the failure
  the specification calls UpstreamVersionNotFoundError). Nothing catches it: an
  \<^verbatim>\<open>update_manifest\<close> that has this major version among the requested ones ends with an
  error and returns no manifest.
\<close>

theorem no_matching_tag_fails:
  assumes "\<forall>t \<in> set results. \<not> startswith (tag_name t) (major @ ''.'')"
  shows "version_tag_latest results major = Inl IndexError \<and>
         (major \<in> set majors \<longrightarrow>
            (\<exists>e. update_manifest manifest update_time image_name majors results = Inl e))"
proof -
  from assms have sel: "version_tag_latest results major = Inl IndexError"
    by (simp only: version_tag_latest_IndexError)
  have "\<exists>e. update_manifest manifest update_time image_name majors results = Inl e"
    if "major \<in> set majors"
  proof -
    from that have "major \<in> set (sort majors)" by simp
    from records_loop_fails [OF this sel] obtain e where
      "get_postgresql_records update_time image_name (sort majors) results = Inl e"
      unfolding get_postgresql_records_def by blast
    then show ?thesis
      by (simp add: update_manifest_def generate_manifest_def)
  qed
  with sel show ?thesis by blast
qed

lemma from_version_Inr:
  assumes "from_version update_time image_name major upstream latest = Inr r"
  obtains v d where "parse_tag upstream = Inr (v, d)"
    and "r = \<lparr> last_updated = update_time, version = v, upstream_tag = upstream,
                major_version = major,
                tags = [image_name @ '':'' @ upstream,
                        image_name @ '':'' @ major @ ''-debian-'' @ d,
                        image_name @ '':'' @ v,
                        image_name @ '':'' @ major]
                       @ (if latest then [image_name @ '':latest''] else []) \<rparr>"
  using assms by (auto simp: from_version_def split: sum.splits)

lemma records_loop_nth:
  "records_loop update_time image_name results n i majors = Inr records \<Longrightarrow>
   length records = length majors \<and>
   (\<forall>j < length majors. \<exists>sel v d.
      version_tag_latest results (majors ! j) = Inr sel \<and>
      parse_tag (tag_name sel) = Inr (v, d) \<and>
      records ! j = \<lparr> last_updated = update_time, version = v, upstream_tag = tag_name sel,
                major_version = majors ! j,
                tags = [image_name @ '':'' @ tag_name sel,
                        image_name @ '':'' @ majors ! j @ ''-debian-'' @ d,
                        image_name @ '':'' @ v,
                        image_name @ '':'' @ majors ! j]
                       @ (if i + j + 1 = n then [image_name @ '':latest''] else []) \<rparr>)"
proof (induction majors arbitrary: i records)
  case Nil
  then show ?case by simp
next
  case (Cons major majors)
  from Cons.prems obtain sel r rs where
    sel: "version_tag_latest results major = Inr sel"
    and r: "from_version update_time image_name major (tag_name sel) (i + 1 = n) = Inr r"
    and rs: "records_loop update_time image_name results n (i + 1) majors = Inr rs"
    and records: "records = r # rs"
    by (auto split: sum.splits)
  from r obtain v d where p: "parse_tag (tag_name sel) = Inr (v, d)"
    and r': "r = \<lparr> last_updated = update_time, version = v, upstream_tag = tag_name sel,
                major_version = major,
                tags = [image_name @ '':'' @ tag_name sel,
                        image_name @ '':'' @ major @ ''-debian-'' @ d,
                        image_name @ '':'' @ v,
                        image_name @ '':'' @ major]
                       @ (if i + 1 = n then [image_name @ '':latest''] else []) \<rparr>"
    by (rule from_version_Inr)
  note IH = Cons.IH [OF rs]
  show ?case
  proof (intro conjI allI impI)
    show "length records = length (major # majors)"
      using IH records by simp
  next
    fix j assume j: "j < length (major # majors)"
    show "\<exists>sel v d.
      version_tag_latest results ((major # majors) ! j) = Inr sel \<and>
      parse_tag (tag_name sel) = Inr (v, d) \<and>
      records ! j = \<lparr> last_updated = update_time, version = v, upstream_tag = tag_name sel,
                major_version = (major # majors) ! j,
                tags = [image_name @ '':'' @ tag_name sel,
                        image_name @ '':'' @ (major # majors) ! j @ ''-debian-'' @ d,
                        image_name @ '':'' @ v,
                        image_name @ '':'' @ (major # majors) ! j]
                       @ (if i + j + 1 = n then [image_name @ '':latest''] else []) \<rparr>"
    proof (cases j)
      case 0
      with sel p r' records show ?thesis by simp
    next
      case (Suc k)
      with j have "k < length majors" by simp
      with IH obtain sel' v' d' where
        "version_tag_latest results (majors ! k) = Inr sel'"
        "parse_tag (tag_name sel') = Inr (v', d')"
        "rs ! k = \<lparr> last_updated = update_time, version = v', upstream_tag = tag_name sel',
                major_version = majors ! k,
                tags = [image_name @ '':'' @ tag_name sel',
                        image_name @ '':'' @ majors ! k @ ''-debian-'' @ d',
                        image_name @ '':'' @ v',
                        image_name @ '':'' @ majors ! k]
                       @ (if i + 1 + k + 1 = n then [image_name @ '':latest''] else []) \<rparr>"
        by blast
      with Suc records show ?thesis by simp
    qed
  qed
qed

text \<open>
  Claim C6, as amended. Each record that \<^verbatim>\<open>get_postgresql_records\<close> returns is built
  from the tag selected for its major version, which parses to a version and a debian
  version, and its \<^verbatim>\<open>tags\<close> are, in this order, image:upstream tag,
  image:major-debian-debian version, image:version, image:major, followed by
  image:latest if and only if the record is the one at the last position of the list of
  major versions; when that list holds no major version twice, this is if and only if
  the record's major version is the last element of the list.
\<close>

theorem alias_list_by_position:
  assumes "get_postgresql_records update_time image_name majors results = Inr records"
    and "i < length majors"
  shows "\<exists>sel v d.
      version_tag_latest results (majors ! i) = Inr sel \<and>
      parse_tag (tag_name sel) = Inr (v, d) \<and>
      upstream_tag (records ! i) = tag_name sel \<and>
      major_version (records ! i) = majors ! i \<and>
      tags (records ! i) =
        [image_name @ '':'' @ tag_name sel,
         image_name @ '':'' @ majors ! i @ ''-debian-'' @ d,
         image_name @ '':'' @ v,
         image_name @ '':'' @ majors ! i]
        @ (if i + 1 = length majors then [image_name @ '':latest''] else []) \<and>
      (distinct majors \<longrightarrow>
         tags (records ! i) =
           [image_name @ '':'' @ tag_name sel,
            image_name @ '':'' @ majors ! i @ ''-debian-'' @ d,
            image_name @ '':'' @ v,
            image_name @ '':'' @ majors ! i]
           @ (if majors ! i = last majors then [image_name @ '':latest''] else []))"
proof -
  from records_loop_nth [OF assms(1) [unfolded get_postgresql_records_def]] assms(2)
  obtain sel v d where sel: "version_tag_latest results (majors ! i) = Inr sel"
    and p: "parse_tag (tag_name sel) = Inr (v, d)"
    and r: "records ! i = \<lparr> last_updated = update_time, version = v, upstream_tag = tag_name sel,
                major_version = majors ! i,
                tags = [image_name @ '':'' @ tag_name sel,
                        image_name @ '':'' @ majors ! i @ ''-debian-'' @ d,
                        image_name @ '':'' @ v,
                        image_name @ '':'' @ majors ! i]
                       @ (if 0 + i + 1 = length majors then [image_name @ '':latest''] else []) \<rparr>"
    by blast
  have pos: "(majors ! i = last majors) = (i + 1 = length majors)" if "distinct majors"
  proof -
    from assms(2) have "last majors = majors ! (length majors - 1)"
      by (cases majors rule: rev_cases) (simp_all add: nth_append)
    moreover from assms(2) that have "(majors ! i = majors ! (length majors - 1)) = (i = length majors - 1)"
      by (simp add: nth_eq_iff_index_eq)
    ultimately show ?thesis using assms(2) by auto
  qed
  show ?thesis
    by (rule exI [of _ sel], rule exI [of _ v], rule exI [of _ d])
       (simp add: sel p r pos)
qed

lemma generate_manifest_majors:
  assumes "generate_manifest update_time image_name majors results = Inr candidate"
  shows "map major_version (postgresql candidate) = majors"
proof -
  from assms obtain records where
    g: "records_loop update_time image_name results (length majors) 0 majors = Inr records"
    and c: "postgresql candidate = records"
    by (auto simp: generate_manifest_def get_postgresql_records_def split: sum.splits)
  from records_loop_nth [OF g] have len: "length records = length majors"
    and nth: "\<And>j. j < length majors \<Longrightarrow> major_version (records ! j) = majors ! j"
    by fastforce+
  show ?thesis
    unfolding c using len nth by (intro nth_equalityI) simp_all
qed

section \<open>The engine list of an update\<close>

lemma entry_for_snoc:
  "entry_for (rs @ [x]) mv = (if major_version x = mv then Some x else entry_for rs mv)"
  by (simp add: entry_for_def)

lemma records_by_major_entry_for: "records_by_major rs mv = entry_for rs mv"
proof (induction rs rule: rev_induct)
  case Nil
  show ?case by (simp add: records_by_major_Nil entry_for_def)
next
  case (snoc x xs)
  then show ?case by (simp add: records_by_major_snoc entry_for_snoc)
qed

lemma reconcile_table:
  assumes "reconcile a b = Some r"
  shows "(a = None \<longrightarrow> b = Some r) \<and>
         (\<forall>old new. a = Some old \<longrightarrow> b = Some new \<longrightarrow>
            upstream_tag new \<noteq> upstream_tag old \<longrightarrow> r = new) \<and>
         (\<forall>old new. a = Some old \<longrightarrow> b = Some new \<longrightarrow>
            upstream_tag new = upstream_tag old \<longrightarrow> r = old) \<and>
         (\<forall>old. a = Some old \<longrightarrow> b = None \<longrightarrow> r = old)"
  using assms by (cases "(a, b)" rule: reconcile.cases) (auto split: if_splits)

text \<open>
  Claim C3. The loop of the merge, run over a list of major versions with a previous
  manifest present, leaves exactly one record for each major version of the list that
  has an entry in the previous or in the candidate manifest, in the order of the list;
  each is the reconciled entry for its major version (the candidate's when there is no
  previous entry or when the upstream tags differ, the previous one when the tags are
  equal or the candidate has none); a previous record whose major version is not in the
  list does not occur. \<^verbatim>\<open>update_manifest\<close> runs this loop over the requested major
  versions sorted ascending, with the candidate it generated for them: the major versions
  of the manifest it returns are the sorted requested ones, and no previous record of a
  major version that is not requested is left.
\<close>

theorem update_manifest_engine_list:
  fixes previous candidate :: Manifest and ms majors :: "string list"
  defines "step \<equiv> merge_manifest (Some previous) candidate ms"
  shows
    "map major_version (postgresql step) =
       filter (\<lambda>mv. mv \<in> major_version ` set (postgresql previous) \<or>
                     mv \<in> major_version ` set (postgresql candidate)) ms \<and>
     (\<forall>r \<in> set (postgresql step).
        (entry_for (postgresql previous) (major_version r) = None \<longrightarrow>
           entry_for (postgresql candidate) (major_version r) = Some r) \<and>
        (\<forall>old new. entry_for (postgresql previous) (major_version r) = Some old \<longrightarrow>
           entry_for (postgresql candidate) (major_version r) = Some new \<longrightarrow>
           upstream_tag new \<noteq> upstream_tag old \<longrightarrow> r = new) \<and>
        (\<forall>old new. entry_for (postgresql previous) (major_version r) = Some old \<longrightarrow>
           entry_for (postgresql candidate) (major_version r) = Some new \<longrightarrow>
           upstream_tag new = upstream_tag old \<longrightarrow> r = old) \<and>
        (\<forall>old. entry_for (postgresql previous) (major_version r) = Some old \<longrightarrow>
           entry_for (postgresql candidate) (major_version r) = None \<longrightarrow> r = old)) \<and>
     (\<forall>r \<in> set (postgresql previous).
        major_version r \<notin> set ms \<longrightarrow> r \<notin> set (postgresql step)) \<and>
     (update_manifest (Some previous) update_time image_name majors results = Inr merged \<longrightarrow>
        map major_version (postgresql merged) = sort majors \<and>
        sorted (map major_version (postgresql merged)) \<and>
        (\<exists>generated.
           generate_manifest update_time image_name (sort majors) results = Inr generated \<and>
           merged = merge_manifest (Some previous) generated (sort majors)) \<and>
        (\<forall>r \<in> set (postgresql previous).
           major_version r \<notin> set majors \<longrightarrow> r \<notin> set (postgresql merged)))"
proof -
  have keys: "map major_version (postgresql (merge_manifest (Some P) C xs)) =
       filter (\<lambda>mv. mv \<in> major_version ` set (postgresql P) \<or>
                     mv \<in> major_version ` set (postgresql C)) xs" for P C xs
  proof -
    have "map major_version (postgresql (merge_manifest (Some P) C xs)) =
        filter (\<lambda>mv. records_by_major (postgresql P) mv \<noteq> None \<or>
                      records_by_major (postgresql C) mv \<noteq> None) xs"
      unfolding postgresql_merge_manifest
      by (rule reconcile_loop_majors) (simp_all add: records_by_major_Some)
    then show ?thesis
      by (simp only: records_by_major_None not_not)
  qed
  have gone: "r \<notin> set (postgresql (merge_manifest (Some P) C xs))"
    if "major_version r \<notin> set xs" for r P C xs
  proof
    assume "r \<in> set (postgresql (merge_manifest (Some P) C xs))"
    then have "major_version r \<in> set (map major_version (postgresql (merge_manifest (Some P) C xs)))"
      by simp
    then have "major_version r \<in> set xs" unfolding keys by simp
    with that show False ..
  qed
  have a1: "map major_version (postgresql step) =
       filter (\<lambda>mv. mv \<in> major_version ` set (postgresql previous) \<or>
                     mv \<in> major_version ` set (postgresql candidate)) ms"
    unfolding step_def by (rule keys)
  have a2: "\<forall>r \<in> set (postgresql step).
        (entry_for (postgresql previous) (major_version r) = None \<longrightarrow>
           entry_for (postgresql candidate) (major_version r) = Some r) \<and>
        (\<forall>old new. entry_for (postgresql previous) (major_version r) = Some old \<longrightarrow>
           entry_for (postgresql candidate) (major_version r) = Some new \<longrightarrow>
           upstream_tag new \<noteq> upstream_tag old \<longrightarrow> r = new) \<and>
        (\<forall>old new. entry_for (postgresql previous) (major_version r) = Some old \<longrightarrow>
           entry_for (postgresql candidate) (major_version r) = Some new \<longrightarrow>
           upstream_tag new = upstream_tag old \<longrightarrow> r = old) \<and>
        (\<forall>old. entry_for (postgresql previous) (major_version r) = Some old \<longrightarrow>
           entry_for (postgresql candidate) (major_version r) = None \<longrightarrow> r = old)"
  proof
    fix r assume "r \<in> set (postgresql step)"
    then obtain k where k: "reconcile (records_by_major (postgresql previous) k)
        (records_by_major (postgresql candidate) k) = Some r"
      unfolding step_def postgresql_merge_manifest using reconcile_loop_mem by blast
    then have "major_version r = k"
      using reconcile_Some records_by_major_Some by blast
    with k have "reconcile (entry_for (postgresql previous) (major_version r))
        (entry_for (postgresql candidate) (major_version r)) = Some r"
      by (simp add: records_by_major_entry_for)
    then show "(entry_for (postgresql previous) (major_version r) = None \<longrightarrow>
           entry_for (postgresql candidate) (major_version r) = Some r) \<and>
        (\<forall>old new. entry_for (postgresql previous) (major_version r) = Some old \<longrightarrow>
           entry_for (postgresql candidate) (major_version r) = Some new \<longrightarrow>
           upstream_tag new \<noteq> upstream_tag old \<longrightarrow> r = new) \<and>
        (\<forall>old new. entry_for (postgresql previous) (major_version r) = Some old \<longrightarrow>
           entry_for (postgresql candidate) (major_version r) = Some new \<longrightarrow>
           upstream_tag new = upstream_tag old \<longrightarrow> r = old) \<and>
        (\<forall>old. entry_for (postgresql previous) (major_version r) = Some old \<longrightarrow>
           entry_for (postgresql candidate) (major_version r) = None \<longrightarrow> r = old)"
      by (rule reconcile_table)
  qed
  have a3: "\<forall>r \<in> set (postgresql previous).
        major_version r \<notin> set ms \<longrightarrow> r \<notin> set (postgresql step)"
    unfolding step_def using gone by blast
  have b: "map major_version (postgresql merged) = sort majors \<and>
        sorted (map major_version (postgresql merged)) \<and>
        (\<exists>generated.
           generate_manifest update_time image_name (sort majors) results = Inr generated \<and>
           merged = merge_manifest (Some previous) generated (sort majors)) \<and>
        (\<forall>r \<in> set (postgresql previous).
           major_version r \<notin> set majors \<longrightarrow> r \<notin> set (postgresql merged))"
    if u: "update_manifest (Some previous) update_time image_name majors results = Inr merged"
  proof -
    from u obtain generated where
      g: "generate_manifest update_time image_name (sort majors) results = Inr generated"
      and m: "merged = merge_manifest (Some previous) generated (sort majors)"
      by (auto simp: update_manifest_def Let_def split: sum.splits)
    from generate_manifest_majors [OF g]
    have all: "set (sort majors) \<subseteq> major_version ` set (postgresql generated)"
      by (metis list.set_map subset_refl)
    have "map major_version (postgresql merged) =
       filter (\<lambda>mv. mv \<in> major_version ` set (postgresql previous) \<or>
                     mv \<in> major_version ` set (postgresql generated)) (sort majors)"
      unfolding m by (rule keys)
    also have "\<dots> = sort majors"
      using all by (intro filter_True) blast
    finally have b1: "map major_version (postgresql merged) = sort majors" .
    have b2: "sorted (map major_version (postgresql merged))"
      unfolding b1 by simp
    have b4: "\<forall>r \<in> set (postgresql previous).
           major_version r \<notin> set majors \<longrightarrow> r \<notin> set (postgresql merged)"
      unfolding m using gone [of _ "sort majors"] by simp
    from b1 b2 g m b4 show ?thesis by blast
  qed
  from b have b': "update_manifest (Some previous) update_time image_name majors results = Inr merged \<longrightarrow>
        map major_version (postgresql merged) = sort majors \<and>
        sorted (map major_version (postgresql merged)) \<and>
        (\<exists>generated.
           generate_manifest update_time image_name (sort majors) results = Inr generated \<and>
           merged = merge_manifest (Some previous) generated (sort majors)) \<and>
        (\<forall>r \<in> set (postgresql previous).
           major_version r \<notin> set majors \<longrightarrow> r \<notin> set (postgresql merged))"
    by (rule impI)
  show ?thesis
    by (intro conjI) (rule a1 a2 a3 b')+
qed

section \<open>The definitions on the example data\<close>

lemmas example_defs = registry_june_def record_13_def record_14_def record_15_2_def
  record_15_3_def manifest_may_def candidate_june_def get_wal2json_record_def

lemmas run_defs = update_manifest_def generate_manifest_def get_postgresql_records_def
  version_tag_latest_def from_version_def parse_tag_def re_match_tag_def not_dash_def

lemma generate_june:
  "generate_manifest t ''acme/img'' [''14'', ''15''] registry_june = Inr (candidate_june t)"
  by (simp add: run_defs example_defs)

lemma by_major_may:
  "records_by_major (postgresql manifest_may) =
     [''13'' \<mapsto> record_13, ''14'' \<mapsto> record_14 100, ''15'' \<mapsto> record_15_2 100]"
  by (simp add: records_by_major_def example_defs)

lemma by_major_june:
  "records_by_major (postgresql (candidate_june t)) =
     [''14'' \<mapsto> record_14 t, ''15'' \<mapsto> record_15_3 t]"
  by (simp add: records_by_major_def example_defs)

lemma merge_may_june:
  "merge_manifest (Some manifest_may) (candidate_june t) [''14'', ''15''] =
     \<lparr> wal2json = get_wal2json_record 100, postgresql = [record_14 100, record_15_3 t] \<rparr>"
  by (simp add: merge_manifest_def Let_def by_major_may by_major_june)
     (simp add: example_defs)

theorem drop_on_absence_witness:
  "''12'' \<in> set (sort [''15'', ''12'', ''14'']) \<and>
   ''12'' \<notin> major_version ` set (postgresql manifest_may) \<and>
   ''12'' \<notin> major_version ` set (postgresql (candidate_june 200)) \<and>
   ''12'' \<notin> major_version ` set (postgresql
      (merge_manifest (Some manifest_may) (candidate_june 200) (sort [''15'', ''12'', ''14''])))"
proof -
  have h1: "''12'' \<notin> major_version ` set (postgresql manifest_may)"
    by (simp add: example_defs)
  have h2: "''12'' \<notin> major_version ` set (postgresql (candidate_june 200))"
    by (simp add: example_defs)
  from drop_on_absence [OF h1 h2, of "sort [''15'', ''12'', ''14'']"] h1 h2
  show ?thesis by simp
qed

text \<open>
  The equivalence of claim C2 as first stated fails when the run's update time is the
  time already recorded: the previous manifest tracks 15.2 since time 100, the registry
  now offers 15.3, and the run is made with update time 100. The record for 15 is
  replaced by the candidate's, with another \<^verbatim>\<open>upstream_tag\<close> and the same
  \<^verbatim>\<open>last_updated\<close>.
\<close>

theorem last_updated_iff_counterexample:
  "update_manifest (Some manifest_may) 100 ''acme/img'' [''15'', ''14''] registry_june =
     Inr \<lparr> wal2json = get_wal2json_record 100,
           postgresql = [record_14 100, record_15_3 100] \<rparr> \<and>
   records_by_major (postgresql manifest_may) (major_version (record_15_3 100)) =
     Some (record_15_2 100) \<and>
   \<not> (last_updated (record_15_3 100) \<noteq> last_updated (record_15_2 100) \<longleftrightarrow>
      upstream_tag (record_15_3 100) \<noteq> upstream_tag (record_15_2 100))"
proof -
  have "sort [''15'', ''14''] = [''14'', ''15'']" by simp
  then have "update_manifest (Some manifest_may) 100 ''acme/img'' [''15'', ''14''] registry_june =
     Inr \<lparr> wal2json = get_wal2json_record 100,
           postgresql = [record_14 100, record_15_3 100] \<rparr>"
    by (simp add: update_manifest_def generate_june merge_may_june)
  moreover have "records_by_major (postgresql manifest_may) (major_version (record_15_3 100)) =
     Some (record_15_2 100)"
    by (simp add: by_major_may) (simp add: record_15_3_def)
  moreover have "\<not> (last_updated (record_15_3 100) \<noteq> last_updated (record_15_2 100) \<longleftrightarrow>
      upstream_tag (record_15_3 100) \<noteq> upstream_tag (record_15_2 100))"
    by (simp add: record_15_3_def record_15_2_def)
  ultimately show ?thesis by blast
qed

theorem last_updated_only_with_tag_witness:
  "wal2json (merge_manifest (Some manifest_may) (candidate_june 200) [''14'', ''15'']) =
     wal2json manifest_may \<and>
   wal2json (merge_manifest
       (Some (manifest_may \<lparr> wal2json :=
          \<lparr> last_updated = 10, version = ''2.4'', upstream_tag = ''wal2json_2_4'' \<rparr> \<rparr>))
       (candidate_june 200) [''14'', ''15'']) = wal2json (candidate_june 200) \<and>
   record_15_3 200 \<in> set (postgresql
     (merge_manifest (Some manifest_may) (candidate_june 200) [''14'', ''15''])) \<and>
   records_by_major (postgresql manifest_may) (major_version (record_15_3 200)) =
     Some (record_15_2 100) \<and>
   upstream_tag (record_15_3 200) \<noteq> upstream_tag (record_15_2 100) \<and>
   last_updated (record_15_3 200) \<noteq> last_updated (record_15_2 100) \<and>
   records_by_major (postgresql (candidate_june 200)) (major_version (record_15_3 200)) =
     Some (record_15_3 200)"
proof -
  let ?merged = "merge_manifest (Some manifest_may) (candidate_june 200) [''14'', ''15'']"
  let ?older = "manifest_may \<lparr> wal2json :=
          \<lparr> last_updated = 10, version = ''2.4'', upstream_tag = ''wal2json_2_4'' \<rparr> \<rparr>"
  note th = last_updated_only_with_tag [of manifest_may "candidate_june 200" "[''14'', ''15'']"]
  note th' = last_updated_only_with_tag [of ?older "candidate_june 200" "[''14'', ''15'']"]
  have same: "upstream_tag (wal2json manifest_may) = upstream_tag (wal2json (candidate_june 200))"
    by (simp add: example_defs)
  have other: "upstream_tag (wal2json ?older) \<noteq> upstream_tag (wal2json (candidate_june 200))"
    by (simp add: example_defs)
  have mem: "record_15_3 200 \<in> set (postgresql ?merged)"
    by (simp add: merge_may_june)
  have old: "records_by_major (postgresql manifest_may) (major_version (record_15_3 200)) =
     Some (record_15_2 100)"
    by (simp add: by_major_may) (simp add: record_15_3_def)
  have tag: "upstream_tag (record_15_3 200) \<noteq> upstream_tag (record_15_2 100)"
    by (simp add: record_15_3_def record_15_2_def)
  have time: "\<forall>new. records_by_major (postgresql (candidate_june 200))
       (major_version (record_15_3 200)) = Some new
     \<longrightarrow> last_updated new \<noteq> last_updated (record_15_2 100)"
    by (simp add: by_major_june) (simp add: record_15_3_def record_15_2_def)
  from th same have a: "wal2json ?merged = wal2json manifest_may" by blast
  from th' other have b: "wal2json (merge_manifest (Some ?older) (candidate_june 200)
      [''14'', ''15'']) = wal2json (candidate_june 200)" by blast
  from th mem old have
    c: "upstream_tag (record_15_3 200) \<noteq> upstream_tag (record_15_2 100) \<longrightarrow>
          records_by_major (postgresql (candidate_june 200)) (major_version (record_15_3 200)) =
          Some (record_15_3 200)"
    and d: "(\<forall>new. records_by_major (postgresql (candidate_june 200))
               (major_version (record_15_3 200)) = Some new
             \<longrightarrow> last_updated new \<noteq> last_updated (record_15_2 100)) \<longrightarrow>
          (last_updated (record_15_3 200) \<noteq> last_updated (record_15_2 100) \<longleftrightarrow>
           upstream_tag (record_15_3 200) \<noteq> upstream_tag (record_15_2 100))"
    by blast+
  from c tag have e: "records_by_major (postgresql (candidate_june 200))
      (major_version (record_15_3 200)) = Some (record_15_3 200)" by blast
  from d time tag have f: "last_updated (record_15_3 200) \<noteq> last_updated (record_15_2 100)"
    by blast
  from a b mem old tag f e show ?thesis by blast
qed

theorem merge_idempotent_witness:
  "update_manifest None 200 ''acme/img'' [''15'', ''14''] registry_june
     = Inr (candidate_june 200) \<and>
   generate_manifest 300 ''acme/img'' [''14'', ''15''] registry_june
     = Inr (candidate_june 300) \<and>
   wal2json (merge_manifest (Some (candidate_june 200)) (candidate_june 300) [''14'', ''15''])
     = wal2json (candidate_june 200) \<and>
   postgresql (merge_manifest (Some (candidate_june 200)) (candidate_june 300) [''14'', ''15''])
     = postgresql (candidate_june 200)"
proof -
  have ext: "upstream_tag (wal2json (candidate_june 300)) =
             upstream_tag (wal2json (candidate_june 200))"
    by (simp add: candidate_june_def get_wal2json_record_def)
  have eng: "\<forall>mv \<in> set [''14'', ''15''].
       map_option upstream_tag (records_by_major (postgresql (candidate_june 300)) mv) =
       map_option upstream_tag (records_by_major (postgresql (candidate_june 200)) mv)"
    by (simp add: by_major_june) (simp add: record_14_def record_15_3_def)
  note th = merge_idempotent [OF ext eng]
  have "sort [''15'', ''14''] = [''14'', ''15'']" by simp
  then have a: "update_manifest None 200 ''acme/img'' [''15'', ''14''] registry_june
     = Inr (candidate_june 200)"
    by (simp add: update_manifest_def generate_june merge_manifest_def)
  have "List.map_filter (records_by_major (postgresql (candidate_june 200))) [''14'', ''15'']
        = postgresql (candidate_june 200)"
    by (simp add: by_major_june map_filter_simps) (simp add: candidate_june_def)
  with th a generate_june [of 300] show ?thesis by simp
qed

theorem wal2json_record_constant_witness:
  "upstream_tag (wal2json manifest_may) = ''wal2json_2_5'' \<and>
   generate_manifest 200 ''acme/img'' [''14'', ''15''] registry_june
     = Inr (candidate_june 200) \<and>
   version (wal2json (candidate_june 200)) = ''2.5'' \<and>
   upstream_tag (wal2json (candidate_june 200)) = ''wal2json_2_5'' \<and>
   update_manifest (Some manifest_may) 200 ''acme/img'' [''14'', ''15''] registry_june =
     Inr \<lparr> wal2json = get_wal2json_record 100,
           postgresql = [record_14 100, record_15_3 200] \<rparr> \<and>
   wal2json \<lparr> wal2json = get_wal2json_record 100,
              postgresql = [record_14 100, record_15_3 200] \<rparr> = wal2json manifest_may"
proof -
  have p: "upstream_tag (wal2json manifest_may) = ''wal2json_2_5''"
    by (simp add: manifest_may_def get_wal2json_record_def)
  have "sort [''14'', ''15''] = [''14'', ''15'']" by simp
  then have u: "update_manifest (Some manifest_may) 200 ''acme/img'' [''14'', ''15''] registry_june =
     Inr \<lparr> wal2json = get_wal2json_record 100,
           postgresql = [record_14 100, record_15_3 200] \<rparr>"
    by (simp add: update_manifest_def generate_june merge_may_june)
  note g = generate_june [of 200]
  from wal2json_record_constant [of 200 "''acme/img''" "[''14'', ''15'']" registry_june
      "candidate_june 200" manifest_may
      "\<lparr> wal2json = get_wal2json_record 100, postgresql = [record_14 100, record_15_3 200] \<rparr>"]
    p u g
  show ?thesis by blast
qed

theorem version_tag_latest_greatest_witness:
  "startswith ''14.10-debian-11-r0'' (''14'' @ ''.'') \<and>
   startswith ''14.9-debian-11-r3'' (''14'' @ ''.'') \<and>
   ''2023-05-01T08:00:00.000000Z'' < ''2023-05-20T08:00:00.000000Z'' \<and>
   version_tag_latest
     [\<lparr> tag_name = ''14.10-debian-11-r0'', tag_last_updated = ''2023-05-01T08:00:00.000000Z'' \<rparr>,
      \<lparr> tag_name = ''14.9-debian-11-r3'', tag_last_updated = ''2023-05-20T08:00:00.000000Z'' \<rparr>]
     ''14''
   = Inr \<lparr> tag_name = ''14.9-debian-11-r3'', tag_last_updated = ''2023-05-20T08:00:00.000000Z'' \<rparr> \<and>
   version_tag_latest registry_june ''15'' =
     Inr \<lparr> tag_name = ''15.3-debian-12-r4'', tag_last_updated = ''2023-06-01T10:00:00.000000Z'' \<rparr> \<and>
   \<lparr> tag_name = ''15.3-debian-12-r4'', tag_last_updated = ''2023-06-01T10:00:00.000000Z'' \<rparr>
     \<in> set registry_june"
proof -
  let ?a = "\<lparr> tag_name = ''14.10-debian-11-r0'',
               tag_last_updated = ''2023-05-01T08:00:00.000000Z'' \<rparr>"
  let ?b = "\<lparr> tag_name = ''14.9-debian-11-r3'',
               tag_last_updated = ''2023-05-20T08:00:00.000000Z'' \<rparr>"
  let ?c = "\<lparr> tag_name = ''15.3-debian-12-r4'',
               tag_last_updated = ''2023-06-01T10:00:00.000000Z'' \<rparr>"
  have sa: "startswith (tag_name ?a) (''14'' @ ''.'')"
    and sb: "startswith (tag_name ?b) (''14'' @ ''.'')" by simp_all
  have lt: "tag_last_updated ?a < tag_last_updated ?b" by simp
  then have ne: "tag_last_updated ?a \<noteq> tag_last_updated ?b" by simp
  from version_tag_latest_greatest [of "[?a, ?b]" "''14''" ?b ?a ?b] sa sb ne
  have "version_tag_latest [?a, ?b] ''14'' =
          Inr (if tag_last_updated ?a < tag_last_updated ?b then ?b else ?a)"
    by blast
  with lt have sel: "version_tag_latest [?a, ?b] ''14'' = Inr ?b" by simp
  have ex: "\<exists>u \<in> set registry_june. startswith (tag_name u) (''15'' @ ''.'')"
    by (simp add: registry_june_def)
  have c: "version_tag_latest registry_june ''15'' = Inr ?c"
    by (simp add: version_tag_latest_def registry_june_def)
  from version_tag_latest_greatest [of registry_june "''15''" ?c ?a ?b] c
  have "?c \<in> set registry_june" by blast
  with sa sb lt sel c show ?thesis by simp
qed

theorem no_matching_tag_fails_witness:
  "version_tag_latest registry_june ''13'' = Inl IndexError \<and>
   ''13'' \<in> set [''15'', ''13''] \<and>
   update_manifest (Some manifest_may) 200 ''acme/img'' [''15'', ''13''] registry_june
     = Inl IndexError"
proof -
  have h: "\<forall>t \<in> set registry_june. \<not> startswith (tag_name t) (''13'' @ ''.'')"
    by (simp add: registry_june_def)
  have m: "''13'' \<in> set [''15'', ''13'']" by simp
  from no_matching_tag_fails [OF h, of "[''15'', ''13'']" "Some manifest_may" 200 "''acme/img''"] m
  obtain e where sel: "version_tag_latest registry_june ''13'' = Inl IndexError"
    and e: "update_manifest (Some manifest_may) 200 ''acme/img'' [''15'', ''13''] registry_june
            = Inl e"
    by blast
  have "update_manifest (Some manifest_may) 200 ''acme/img'' [''15'', ''13''] registry_june
            = Inl IndexError"
    by (simp add: run_defs registry_june_def)
  with sel m show ?thesis by simp
qed

theorem alias_list_by_position_witness:
  "get_postgresql_records 200 ''acme/img'' [''15'']
     [\<lparr> tag_name = ''15.3-debian-12-r4'', tag_last_updated = ''2023-06-01T10:00:00.000000Z'' \<rparr>]
     = Inr [record_15_3 200] \<and>
   tags ([record_15_3 200] ! 0) =
     [''acme/img:15.3-debian-12-r4'', ''acme/img:15-debian-12'', ''acme/img:15.3'',
      ''acme/img:15'', ''acme/img:latest'']"
proof -
  let ?results = "[\<lparr> tag_name = ''15.3-debian-12-r4'',
                      tag_last_updated = ''2023-06-01T10:00:00.000000Z'' \<rparr>]"
  have g: "get_postgresql_records 200 ''acme/img'' [''15''] ?results = Inr [record_15_3 200]"
    by (simp add: run_defs record_15_3_def)
  have i: "0 < length [''15'']" by simp
  from alias_list_by_position [OF g i] obtain sel v d where
    sel: "version_tag_latest ?results ([''15''] ! 0) = Inr sel"
    and p: "parse_tag (tag_name sel) = Inr (v, d)"
    and t: "tags ([record_15_3 200] ! 0) =
        [''acme/img'' @ '':'' @ tag_name sel,
         ''acme/img'' @ '':'' @ [''15''] ! 0 @ ''-debian-'' @ d,
         ''acme/img'' @ '':'' @ v,
         ''acme/img'' @ '':'' @ [''15''] ! 0]
        @ (if 0 + 1 = length [''15''] then [''acme/img'' @ '':latest''] else [])"
    by blast
  from sel have s: "sel = \<lparr> tag_name = ''15.3-debian-12-r4'',
                      tag_last_updated = ''2023-06-01T10:00:00.000000Z'' \<rparr>"
    by (simp add: version_tag_latest_def)
  from p have "v = ''15.3''" "d = ''12''"
    unfolding s by (simp_all add: parse_tag_def re_match_tag_def not_dash_def)
  with t s g show ?thesis by simp
qed

text \<open>
  The rule of claim C6 as first stated fails when a major version is requested twice:
  \<^verbatim>\<open>update_manifest\<close> sorts the requested list but keeps duplicates, and only the record
  built at the last index gets \<^verbatim>\<open>:latest\<close>. The first record for 15 has the major
  version that is the last element of the sorted list, and no \<^verbatim>\<open>:latest\<close> alias.
\<close>

theorem latest_alias_counterexample:
  "get_postgresql_records 200 ''acme/img'' (sort [''15'', ''15'']) registry_june =
     Inr [(record_15_3 200) \<lparr> tags :=
             [''acme/img:15.3-debian-12-r4'', ''acme/img:15-debian-12'', ''acme/img:15.3'',
              ''acme/img:15''] \<rparr>,
          record_15_3 200] \<and>
   major_version (record_15_3 200) = last (sort [''15'', ''15''])"
  by (simp add: run_defs registry_june_def record_15_3_def)

lemma merge_may_june_unsorted:
  "postgresql (merge_manifest (Some manifest_may) (candidate_june 200)
      [''15'', ''13'', ''12'', ''14'']) = [record_15_3 200, record_13, record_14 100]"
  by (simp add: merge_manifest_def Let_def by_major_may by_major_june)
     (simp add: example_defs)

theorem update_manifest_engine_list_witness:
  "map major_version (postgresql (merge_manifest (Some manifest_may) (candidate_june 200)
      [''15'', ''13'', ''12'', ''14''])) = [''15'', ''13'', ''14''] \<and>
   record_15_3 200 \<in> set (postgresql (merge_manifest (Some manifest_may) (candidate_june 200)
      [''15'', ''13'', ''12'', ''14''])) \<and>
   entry_for (postgresql manifest_may) (major_version (record_15_3 200))
      = Some (record_15_2 100) \<and>
   entry_for (postgresql (candidate_june 200)) (major_version (record_15_3 200))
      = Some (record_15_3 200) \<and>
   upstream_tag (record_15_3 200) \<noteq> upstream_tag (record_15_2 100) \<and>
   record_14 100 \<in> set (postgresql (merge_manifest (Some manifest_may) (candidate_june 200)
      [''15'', ''13'', ''12'', ''14''])) \<and>
   entry_for (postgresql manifest_may) (major_version (record_14 100))
      = Some (record_14 100) \<and>
   entry_for (postgresql (candidate_june 200)) (major_version (record_14 100))
      = Some (record_14 200) \<and>
   upstream_tag (record_14 200) = upstream_tag (record_14 100) \<and>
   record_13 \<in> set (postgresql (merge_manifest (Some manifest_may) (candidate_june 200)
      [''15'', ''13'', ''12'', ''14''])) \<and>
   entry_for (postgresql manifest_may) (major_version record_13) = Some record_13 \<and>
   entry_for (postgresql (candidate_june 200)) (major_version record_13) = None \<and>
   update_manifest (Some manifest_may) 200 ''acme/img'' [''15'', ''14''] registry_june =
     Inr \<lparr> wal2json = get_wal2json_record 100,
           postgresql = [record_14 100, record_15_3 200] \<rparr> \<and>
   map major_version (postgresql \<lparr> wal2json = get_wal2json_record 100,
           postgresql = [record_14 100, record_15_3 200] \<rparr>) = sort [''15'', ''14''] \<and>
   record_13 \<in> set (postgresql manifest_may) \<and>
   major_version record_13 \<notin> set [''15'', ''14''] \<and>
   record_13 \<notin> set (postgresql \<lparr> wal2json = get_wal2json_record 100,
           postgresql = [record_14 100, record_15_3 200] \<rparr>)"
proof -
  let ?ms = "[''15'', ''13'', ''12'', ''14'']"
  let ?step = "merge_manifest (Some manifest_may) (candidate_june 200) ?ms"
  let ?merged = "\<lparr> wal2json = get_wal2json_record 100,
           postgresql = [record_14 100, record_15_3 200] \<rparr>"
  note th = update_manifest_engine_list [of manifest_may "candidate_june 200" ?ms
      200 "''acme/img''" "[''15'', ''14'']" registry_june ?merged]
  have "sort [''15'', ''14''] = [''14'', ''15'']" by simp
  then have u: "update_manifest (Some manifest_may) 200 ''acme/img'' [''15'', ''14'']
      registry_june = Inr ?merged"
    by (simp add: update_manifest_def generate_june merge_may_june)
  have m15: "record_15_3 200 \<in> set (postgresql ?step)"
    and m14: "record_14 100 \<in> set (postgresql ?step)"
    and m13: "record_13 \<in> set (postgresql ?step)"
    by (simp_all add: merge_may_june_unsorted)
  have e15: "entry_for (postgresql manifest_may) (major_version (record_15_3 200))
      = Some (record_15_2 100)"
    and e14: "entry_for (postgresql manifest_may) (major_version (record_14 100))
      = Some (record_14 100)"
    and e13: "entry_for (postgresql manifest_may) (major_version record_13) = Some record_13"
    by (simp_all add: records_by_major_entry_for [symmetric] by_major_may)
       (simp_all add: example_defs)
  have c15: "entry_for (postgresql (candidate_june 200)) (major_version (record_15_3 200))
      = Some (record_15_3 200)"
    and c14: "entry_for (postgresql (candidate_june 200)) (major_version (record_14 100))
      = Some (record_14 200)"
    and c13: "entry_for (postgresql (candidate_june 200)) (major_version record_13) = None"
    by (simp_all add: records_by_major_entry_for [symmetric] by_major_june)
       (simp_all add: example_defs)
  have t15: "upstream_tag (record_15_3 200) \<noteq> upstream_tag (record_15_2 100)"
    and t14: "upstream_tag (record_14 200) = upstream_tag (record_14 100)"
    by (simp_all add: example_defs)
  have p: "record_13 \<in> set (postgresql manifest_may)"
    and q: "major_version record_13 \<notin> set [''15'', ''14'']"
    by (simp_all add: example_defs)
  from th have "map major_version (postgresql ?step) =
       filter (\<lambda>mv. mv \<in> major_version ` set (postgresql manifest_may) \<or>
                     mv \<in> major_version ` set (postgresql (candidate_june 200))) ?ms"
    by blast
  also have "\<dots> = [''15'', ''13'', ''14'']"
    by (simp add: example_defs)
  finally have keys: "map major_version (postgresql ?step) = [''15'', ''13'', ''14'']" .
  from th u have b1: "map major_version (postgresql ?merged) = sort [''15'', ''14'']"
    by blast
  from th u p q have b4: "record_13 \<notin> set (postgresql ?merged)"
    by blast
  show ?thesis
    by (intro conjI) (rule keys m15 e15 c15 t15 m14 e14 c14 t14 m13 e13 c13 u b1 p q b4)+
qed

text \<open>
  The wording of claim C7 as first stated speaks of the greatest timestamp. The code compares the
  strings: of two tags for 14, one updated at 08:00:00 and written without a fraction
  of a second, the other updated half a second later, it selects the first, whose string
  is the greater one.
\<close>

theorem version_tag_latest_counterexample:
  "version_tag_latest
     [\<lparr> tag_name = ''14.9-debian-11-r3'', tag_last_updated = ''2023-05-20T08:00:00.500000Z'' \<rparr>,
      \<lparr> tag_name = ''14.8-debian-11-r1'', tag_last_updated = ''2023-05-20T08:00:00Z'' \<rparr>]
     ''14''
   = Inr \<lparr> tag_name = ''14.8-debian-11-r1'', tag_last_updated = ''2023-05-20T08:00:00Z'' \<rparr> \<and>
   iso8601_instant ''2023-05-20T08:00:00Z'' < iso8601_instant ''2023-05-20T08:00:00.500000Z''"
  by (simp add: version_tag_latest_def iso8601_instant_def digits_value_def digit_value_def
      is_digit_def)

end
